theory Spec2Isabelle
  imports Main "HOL-Library.Word"
begin

section \<open>Character types and constants\<close>

text \<open>
  Modelled from the spec: the headers \<^verbatim>\<open>alpha-map.h\<close> and \<^verbatim>\<open>triedefs.h\<close>, which declare
  \<^verbatim>\<open>AlphaChar\<close>, \<^verbatim>\<open>TrieChar\<close>, \<^verbatim>\<open>TRIE_CHAR_MAX\<close> and \<^verbatim>\<open>ALPHA_CHAR_ERROR\<close>, are not among the
  sources. An external character is written to and read from the binary block as one
  32-bit integer, so \<^verbatim>\<open>AlphaChar\<close> is an unsigned 32-bit word. A string of compact codes is
  measured with \<^verbatim>\<open>strlen\<close> and allocated one byte per code, so \<^verbatim>\<open>TrieChar\<close> is an unsigned
  byte. \<^verbatim>\<open>TRIE_CHAR_MAX\<close> is the maximum value of the compact code type. The spec gives
  no value for the error external character: the functions that return it take it as
  their first argument, named \<open>ALPHA_CHAR_ERROR\<close>.
\<close>

type_synonym AlphaChar = "32 word"
type_synonym TrieChar = "8 word"
type_synonym int32 = "32 word"

definition TRIE_CHAR_MAX :: TrieChar where
  "TRIE_CHAR_MAX = 255"

definition ALPHAMAP_SIGNATURE :: "32 word" where
  "ALPHAMAP_SIGNATURE = 0xD9FCD9FC"

section \<open>The range list\<close>

text \<open>
  \<^verbatim>\<open>struct _AlphaRange\<close> with its \<^verbatim>\<open>next\<close> pointer is a list cell; the map's
  \<^verbatim>\<open>first_range\<close> is the head of that list and \<^verbatim>\<open>last_range\<close> its last cell, kept only
  to append in constant time. The model keeps the list of ranges in insertion order.
\<close>

record AlphaRange =
  range_begin :: AlphaChar
  range_end :: AlphaChar

record AlphaMap =
  ranges :: "AlphaRange list"

section \<open>Lookups\<close>

text \<open>
  The \<^verbatim>\<open>for\<close> loop of \<^verbatim>\<open>alpha_map_char_to_trie\<close> and the two returns after it.
  \<^verbatim>\<open>alpha_begin\<close> is a \<^verbatim>\<open>TrieChar\<close>; the right-hand sides are computed in 32 bits
  (the accumulator is promoted to a 32-bit \<^verbatim>\<open>int\<close>, the range bounds are unsigned
  32-bit) and converted back to \<^verbatim>\<open>TrieChar\<close> on assignment and on return.
\<close>

fun char_to_trie_loop :: "AlphaRange list \<Rightarrow> AlphaChar \<Rightarrow> TrieChar \<Rightarrow> TrieChar" where
  "char_to_trie_loop [] ac alpha_begin = TRIE_CHAR_MAX"
| "char_to_trie_loop (r # rest) ac alpha_begin =
     (if ac < range_begin r \<or> range_end r < ac
      then char_to_trie_loop rest ac
             (ucast ((ucast alpha_begin :: 32 word) + (range_end r - range_begin r + 1)))
      else ucast ((ucast alpha_begin :: 32 word) + (ac - range_begin r)))"

definition alpha_map_char_to_trie :: "AlphaMap \<Rightarrow> AlphaChar \<Rightarrow> TrieChar" where
  "alpha_map_char_to_trie alpha_map ac =
     (if 0 = ac then 0 else char_to_trie_loop (ranges alpha_map) ac 1)"

text \<open>
  The loop of \<^verbatim>\<open>alpha_map_trie_to_char\<close>. The loop test compares in unsigned 32 bits;
  \<^verbatim>\<open>tc - alpha_begin\<close> is an \<^verbatim>\<open>int\<close> that is converted to unsigned 32 bits when it is
  added to \<^verbatim>\<open>range->begin\<close>.
\<close>

fun trie_to_char_loop ::
  "AlphaChar \<Rightarrow> AlphaRange list \<Rightarrow> TrieChar \<Rightarrow> TrieChar \<Rightarrow> AlphaChar" where
  "trie_to_char_loop ALPHA_CHAR_ERROR [] tc alpha_begin = ALPHA_CHAR_ERROR"
| "trie_to_char_loop ALPHA_CHAR_ERROR (r # rest) tc alpha_begin =
     (if (ucast alpha_begin :: 32 word) + (range_end r - range_begin r) < ucast tc
      then trie_to_char_loop ALPHA_CHAR_ERROR rest tc
             (ucast ((ucast alpha_begin :: 32 word) + (range_end r - range_begin r + 1)))
      else range_begin r + (ucast tc - ucast alpha_begin))"

definition alpha_map_trie_to_char :: "AlphaChar \<Rightarrow> AlphaMap \<Rightarrow> TrieChar \<Rightarrow> AlphaChar" where
  "alpha_map_trie_to_char ALPHA_CHAR_ERROR alpha_map tc =
     (if 0 = tc then 0 else trie_to_char_loop ALPHA_CHAR_ERROR (ranges alpha_map) tc 1)"

section \<open>Allocation and construction\<close>

text \<open>
  \<^verbatim>\<open>malloc\<close> returns a fresh cell or \<^verbatim>\<open>NULL\<close>. The model carries the number of cells the
  allocator can still hand out; a request made when none is left fails.
\<close>

type_synonym heap = nat

definition malloc :: "heap \<Rightarrow> bool \<times> heap" where
  "malloc h = (if h = 0 then (False, h) else (True, h - 1))"

definition alpha_map_new :: "heap \<Rightarrow> AlphaMap option \<times> heap" where
  "alpha_map_new h =
     (let (ok, h') = malloc h
      in if \<not> ok then (None, h') else (Some \<lparr>ranges = []\<rparr>, h'))"

text \<open>
  \<^verbatim>\<open>alpha_map_add_range\<close> returns its status together with the map and the allocator
  state after the call.
\<close>

definition alpha_map_add_range ::
  "AlphaMap \<Rightarrow> AlphaChar \<Rightarrow> AlphaChar \<Rightarrow> heap \<Rightarrow> int \<times> AlphaMap \<times> heap" where
  "alpha_map_add_range alpha_map begin end h =
     (if begin > end then (- 1, alpha_map, h)
      else let (ok, h') = malloc h
           in if \<not> ok then (- 1, alpha_map, h')
              else (0, alpha_map\<lparr>ranges := ranges alpha_map @
                                      [\<lparr>range_begin = begin, range_end = end\<rparr>]\<rparr>, h'))"

text \<open>
  The counting loop of \<^verbatim>\<open>alpha_map_get_total_ranges\<close>. \<^verbatim>\<open>n\<close> is a C \<^verbatim>\<open>int\<close>, which
  cannot count \<open>2^31\<close> ranges or more; the model counts in unbounded integers and the
  properties of the count are stated for fewer than \<open>2^31\<close> ranges.
\<close>

fun count_ranges :: "AlphaRange list \<Rightarrow> int \<Rightarrow> int" where
  "count_ranges [] n = n"
| "count_ranges (r # rest) n = count_ranges rest (n + 1)"

definition alpha_map_get_total_ranges :: "AlphaMap \<Rightarrow> int" where
  "alpha_map_get_total_ranges alpha_map = count_ranges (ranges alpha_map) 0"

section \<open>Streams\<close>

text \<open>
  Modelled from the spec: \<^verbatim>\<open>fileutils.c\<close>, which defines \<^verbatim>\<open>file_read_int32\<close> and
  \<^verbatim>\<open>file_write_int32\<close>, is not among the sources. The spec takes them as given
  capabilities: read or write one 32-bit integer from or to an open stream, each
  returning a success or failure indicator, with the byte layout left opaque. The stream
  is therefore a sequence of 32-bit integers with a read and write position counted in
  integers. A read fails at the end of the stream. A write fails when the position has
  reached the stream's capacity, which stands for every reason the underlying write can
  fail. \<^verbatim>\<open>ftell\<close> and \<^verbatim>\<open>fseek\<close> (with \<^verbatim>\<open>SEEK_SET\<close>) read and set the position.
\<close>

record FILE =
  content :: "int32 list"
  pos :: nat
  capacity :: nat

definition ftell :: "FILE \<Rightarrow> nat" where
  "ftell file = pos file"

definition fseek :: "FILE \<Rightarrow> nat \<Rightarrow> FILE" where
  "fseek file p = file\<lparr>pos := p\<rparr>"

definition file_read_int32 :: "FILE \<Rightarrow> int32 option \<times> FILE" where
  "file_read_int32 file =
     (if pos file < length (content file)
      then (Some (content file ! pos file), file\<lparr>pos := pos file + 1\<rparr>)
      else (None, file))"

text \<open>A write inside the stream replaces an integer, a write at or past its end extends it.\<close>

definition put_at :: "int32 list \<Rightarrow> nat \<Rightarrow> int32 \<Rightarrow> int32 list" where
  "put_at xs i v =
     (if i < length xs then xs[i := v] else xs @ replicate (i - length xs) 0 @ [v])"

definition file_write_int32 :: "FILE \<Rightarrow> int32 \<Rightarrow> bool \<times> FILE" where
  "file_write_int32 file v =
     (if pos file < capacity file
      then (True, file\<lparr>content := put_at (content file) (pos file) v, pos := pos file + 1\<rparr>)
      else (False, file))"

section \<open>Binary codec\<close>

text \<open>
  \<^verbatim>\<open>alpha_map_read_bin\<close> ignores the result of \<^verbatim>\<open>file_read_int32\<close> when it reads the count
  and the range bounds. When such a read fails, the local variable it was to fill is
  used uninitialised; the model stops there with \<open>UninitialisedRead\<close>.
\<close>

datatype error = UninitialisedRead

text \<open>
  The \<^verbatim>\<open>for\<close> loop of \<^verbatim>\<open>alpha_map_read_bin\<close>; \<^verbatim>\<open>i\<close> and \<^verbatim>\<open>total\<close> (here \<open>ntotal\<close>) are signed. The
  bounds are read as \<^verbatim>\<open>int32\<close> and converted to \<^verbatim>\<open>AlphaChar\<close> at the call, which keeps
  the bits. The status returned by \<^verbatim>\<open>alpha_map_add_range\<close> is dropped.
\<close>

function read_ranges ::
  "int \<Rightarrow> int \<Rightarrow> AlphaMap \<Rightarrow> FILE \<Rightarrow> heap \<Rightarrow> error + (AlphaMap \<times> FILE \<times> heap)" where
  "read_ranges i ntotal alpha_map file h =
     (if i < ntotal
      then (case file_read_int32 file of
              (None, file1) \<Rightarrow> Inl UninitialisedRead
            | (Some b, file1) \<Rightarrow>
                (case file_read_int32 file1 of
                   (None, file2) \<Rightarrow> Inl UninitialisedRead
                 | (Some e, file2) \<Rightarrow>
                     (case alpha_map_add_range alpha_map b e h of
                        (status, alpha_map', h') \<Rightarrow>
                          read_ranges (i + 1) ntotal alpha_map' file2 h')))
      else Inr (alpha_map, file, h))"
  by pat_completeness auto
termination
  by (relation "measure (\<lambda>(i, ntotal, alpha_map, file, h). nat (ntotal - i))") auto

declare read_ranges.simps [simp del]

definition alpha_map_read_bin ::
  "FILE \<Rightarrow> heap \<Rightarrow> error + (AlphaMap option \<times> FILE \<times> heap)" where
  "alpha_map_read_bin file h =
     (let save_pos = ftell file;
          (sig, file1) = file_read_int32 file
      in if sig = None \<or> Some ALPHAMAP_SIGNATURE \<noteq> sig
         then Inr (None, fseek file1 save_pos, h)
         else let (alpha_map, h1) = alpha_map_new h
              in case alpha_map of
                   None \<Rightarrow> Inr (None, file1, h1)
                 | Some m \<Rightarrow>
                     (case file_read_int32 file1 of
                        (None, file2) \<Rightarrow> Inl UninitialisedRead
                      | (Some ntotal, file2) \<Rightarrow>
                          (case read_ranges 0 (sint ntotal) m file2 h1 of
                             Inl err \<Rightarrow> Inl err
                           | Inr (m', file3, h3) \<Rightarrow> Inr (Some m', file3, h3))))"

text \<open>The \<^verbatim>\<open>for\<close> loop of \<^verbatim>\<open>alpha_map_write_bin\<close> and the \<^verbatim>\<open>return 0\<close> after it.\<close>

fun write_ranges :: "AlphaRange list \<Rightarrow> FILE \<Rightarrow> int \<times> FILE" where
  "write_ranges [] file = (0, file)"
| "write_ranges (r # rest) file =
     (let (ok1, file1) = file_write_int32 file (range_begin r)
      in if \<not> ok1 then (- 1, file1)
         else let (ok2, file2) = file_write_int32 file1 (range_end r)
              in if \<not> ok2 then (- 1, file2) else write_ranges rest file2)"

text \<open>The count is a C \<^verbatim>\<open>int\<close>, passed as the \<^verbatim>\<open>int32\<close> that is written.\<close>

definition alpha_map_write_bin :: "AlphaMap \<Rightarrow> FILE \<Rightarrow> int \<times> FILE" where
  "alpha_map_write_bin alpha_map file =
     (let (ok1, file1) = file_write_int32 file ALPHAMAP_SIGNATURE
      in if \<not> ok1 then (- 1, file1)
         else let (ok2, file2) =
                    file_write_int32 file1 (word_of_int (alpha_map_get_total_ranges alpha_map))
              in if \<not> ok2 then (- 1, file2) else write_ranges (ranges alpha_map) file2)"

section \<open>Notions used to state the properties\<close>

text \<open>A character lies in a range when it is between the two bounds, both included.\<close>

definition in_range :: "AlphaRange \<Rightarrow> AlphaChar \<Rightarrow> bool" where
  "in_range r c = (range_begin r \<le> c \<and> c \<le> range_end r)"

text \<open>
  Every range that \<^verbatim>\<open>alpha_map_add_range\<close> accepts has \<open>begin \<le> end\<close>, and no other
  function stores a range, so every map the program holds satisfies \<open>alpha_map_valid\<close>.
\<close>

definition alpha_map_valid :: "AlphaMap \<Rightarrow> bool" where
  "alpha_map_valid alpha_map = list_all (\<lambda>r. range_begin r \<le> range_end r) (ranges alpha_map)"

text \<open>The number of characters of a range and of a list of ranges, as integers.\<close>

definition range_size :: "AlphaRange \<Rightarrow> int" where
  "range_size r = uint (range_end r) - uint (range_begin r) + 1"

definition total_size :: "AlphaRange list \<Rightarrow> int" where
  "total_size rs = sum_list (map range_size rs)"

text \<open>The ranges of a list that \<^verbatim>\<open>alpha_map_add_range\<close> accepts, in order.\<close>

abbreviation (input) accepted :: "AlphaRange list \<Rightarrow> AlphaRange list" where
  "accepted \<equiv> filter (\<lambda>r. range_begin r \<le> range_end r)"

text \<open>
  The layout of the ranges in the binary block: for each range, in order, its begin and
  then its end. \<open>holds_at xs p ws\<close> says that the integers \<open>ws\<close> stand in the stream
  content \<open>xs\<close> from position \<open>p\<close> on.
\<close>

fun range_words :: "AlphaRange list \<Rightarrow> int32 list" where
  "range_words [] = []"
| "range_words (r # rest) = range_begin r # range_end r # range_words rest"

definition holds_at :: "int32 list \<Rightarrow> nat \<Rightarrow> int32 list \<Rightarrow> bool" where
  "holds_at xs p ws = (p + length ws \<le> length xs \<and> (\<forall>i < length ws. xs ! (p + i) = ws ! i))"

text \<open>
  The scan of \<^verbatim>\<open>char_to_trie\<close> in the spec's words, on unbounded integers: a running
  \<open>compact_base\<close>; for each range, if the character falls within \<open>[begin, end]\<close> the result
  is \<open>compact_base + (external_char - begin)\<close>, and a skipped range adds
  \<open>end - begin + 1\<close> to \<open>compact_base\<close>. \<open>None\<close> stands for a scan that is exhausted.
\<close>

fun spec_char_to_trie_scan :: "AlphaRange list \<Rightarrow> AlphaChar \<Rightarrow> int \<Rightarrow> int option" where
  "spec_char_to_trie_scan [] c compact_base = None"
| "spec_char_to_trie_scan (r # rest) c compact_base =
     (if in_range r c then Some (compact_base + (uint c - uint (range_begin r)))
      else spec_char_to_trie_scan rest c (compact_base + range_size r))"

section \<open>Word arithmetic of the two loops\<close>

lemma narrow_add: "(ucast ((ucast (ab::8 word) :: 32 word) + x) :: 8 word) = ab + ucast x"
  by (simp add: word_eq_iff_unsigned[where ?'a=int] unsigned_ucast_eq uint_word_ariths take_bit_eq_mod mod_simps mod_mod_cancel)

lemma skip_step:
  "(ucast ((ucast (word_of_int k :: 8 word) :: 32 word) + (range_end r - range_begin r + 1)) :: 8 word)
     = word_of_int (k + range_size r)"
  unfolding narrow_add range_size_def
  by (simp add: word_eq_iff_unsigned[where ?'a=int] unsigned_ucast_eq uint_word_ariths uint_word_of_int take_bit_eq_mod mod_simps mod_mod_cancel)

lemma hit_step:
  "(ucast ((ucast (word_of_int k :: 8 word) :: 32 word) + (c - range_begin r)) :: 8 word)
     = word_of_int (k + (uint c - uint (range_begin r)))"
  unfolding narrow_add
  by (simp add: word_eq_iff_unsigned[where ?'a=int] unsigned_ucast_eq uint_word_ariths uint_word_of_int take_bit_eq_mod mod_simps mod_mod_cancel)

lemma char_to_trie_loop_scan:
  "char_to_trie_loop rs ac (word_of_int k) =
     (case spec_char_to_trie_scan rs ac k of None \<Rightarrow> TRIE_CHAR_MAX | Some code \<Rightarrow> word_of_int code)"
proof (induction rs arbitrary: k)
  case Nil
  show ?case by simp
next
  case (Cons r rest)
  show ?case
  proof (cases "in_range r ac")
    case True
    then have "\<not> (ac < range_begin r \<or> range_end r < ac)"
      by (auto simp: in_range_def)
    with True show ?thesis
      by (simp add: hit_step del: of_int_add)
  next
    case False
    then have "ac < range_begin r \<or> range_end r < ac"
      by (auto simp: in_range_def)
    with False show ?thesis
      by (simp add: skip_step Cons.IH del: of_int_add)
  qed
qed

lemma scan_lower:
  "list_all (\<lambda>r. range_begin r \<le> range_end r) rs \<Longrightarrow>
   spec_char_to_trie_scan rs c k = Some code \<Longrightarrow> k \<le> code \<and> code < k + total_size rs"
proof (induction rs arbitrary: k)
  case Nil
  then show ?case by simp
next
  case (Cons r rest)
  from Cons.prems(1) have v: "range_begin r \<le> range_end r"
    and vr: "list_all (\<lambda>r. range_begin r \<le> range_end r) rest" by simp_all
  from v have sz: "1 \<le> range_size r"
    by (simp add: range_size_def word_le_def)
  from vr have tot: "0 \<le> total_size rest"
    by (induction rest) (auto simp: total_size_def range_size_def word_le_def)
  show ?case
  proof (cases "in_range r c")
    case True
    with Cons.prems(2) have "code = k + (uint c - uint (range_begin r))" by simp
    with True tot show ?thesis
      by (simp add: in_range_def word_le_def total_size_def range_size_def)
  next
    case False
    with Cons.prems(2) have "spec_char_to_trie_scan rest c (k + range_size r) = Some code"
      by simp
    from Cons.IH[OF vr this] sz show ?thesis
      by (simp add: total_size_def)
  qed
qed

lemma scan_found:
  "\<exists>r \<in> set rs. in_range r c \<Longrightarrow> \<exists>code. spec_char_to_trie_scan rs c k = Some code"
  by (induction rs arbitrary: k) auto

lemma scan_not_found:
  "\<forall>r \<in> set rs. \<not> in_range r c \<Longrightarrow> spec_char_to_trie_scan rs c k = None"
  by (induction rs arbitrary: k) auto

lemma scan_append_skip:
  "\<forall>r \<in> set xs. \<not> in_range r c \<Longrightarrow>
   spec_char_to_trie_scan (xs @ ys) c k = spec_char_to_trie_scan ys c (k + total_size xs)"
  by (induction xs arbitrary: k) (auto simp: total_size_def add.assoc)

lemma scan_append_found:
  "spec_char_to_trie_scan xs c k = Some code \<Longrightarrow> spec_char_to_trie_scan (xs @ ys) c k = Some code"
  by (induction xs arbitrary: k) (auto split: if_splits)

lemma widen_of_int:
  "0 \<le> j \<Longrightarrow> j < 256 \<Longrightarrow> (ucast (word_of_int j :: 8 word) :: 32 word) = word_of_int j"
  by (simp add: word_eq_iff_unsigned[where ?'a=int] unsigned_ucast_eq uint_word_of_int take_bit_eq_mod)

lemma uint_widen: "uint (ucast (tc :: 8 word) :: 32 word) = uint tc"
proof -
  have "uint tc < 256" using uint_bounded[of tc] by simp
  then show ?thesis
    by (simp add: unsigned_ucast_eq take_bit_eq_mod)
qed

lemma test_exact:
  assumes "range_begin r \<le> range_end r" "0 \<le> k" "k + range_size r \<le> 256"
  shows "((ucast (word_of_int k :: 8 word) :: 32 word) + (range_end r - range_begin r) < ucast (tc :: 8 word))
           \<longleftrightarrow> k + range_size r - 1 < uint tc"
proof -
  from assms(1) have d: "uint (range_end r - range_begin r) = uint (range_end r) - uint (range_begin r)"
    by (simp add: uint_sub_if' word_le_def)
  from assms have sz: "1 \<le> range_size r"
    by (simp add: range_size_def word_le_def)
  with assms have k: "k < 256" by simp
  with assms(2) have uk: "uint (ucast (word_of_int k :: 8 word) :: 32 word) = k"
    by (simp add: widen_of_int uint_word_of_int take_bit_eq_mod)
  have "uint ((ucast (word_of_int k :: 8 word) :: 32 word) + (range_end r - range_begin r))
          = k + range_size r - 1"
    using assms(2,3) sz
    by (simp add: uint_word_ariths(1) uk d range_size_def take_bit_eq_mod)
  then show ?thesis
    by (simp add: word_less_def uint_widen)
qed

lemma return_exact:
  assumes "in_range r c" "0 \<le> k" "k + (uint c - uint (range_begin r)) < 256"
  shows "range_begin r +
           ((ucast (word_of_int (k + (uint c - uint (range_begin r))) :: 8 word) :: 32 word)
             - ucast (word_of_int k :: 8 word)) = c"
proof -
  from assms(1) have le: "uint (range_begin r) \<le> uint c"
    by (simp add: in_range_def word_le_def)
  with assms have k: "k < 256" by simp
  from assms(2) le have nn: "0 \<le> k + (uint c - uint (range_begin r))" by simp
  show ?thesis
    unfolding widen_of_int[OF assms(2) k] widen_of_int[OF nn assms(3)] by simp
qed

lemma trie_to_char_loop_scan:
  assumes "list_all (\<lambda>r. range_begin r \<le> range_end r) rs" "0 \<le> k" "k + total_size rs \<le> 256"
    and "spec_char_to_trie_scan rs c k = Some code"
  shows "trie_to_char_loop ALPHA_CHAR_ERROR rs (word_of_int code) (word_of_int k) = c"
  using assms
proof (induction rs arbitrary: k)
  case Nil
  then show ?case by simp
next
  case (Cons r rest)
  from Cons.prems(1) have v: "range_begin r \<le> range_end r"
    and vr: "list_all (\<lambda>r. range_begin r \<le> range_end r) rest" by simp_all
  from v have sz: "1 \<le> range_size r"
    by (simp add: range_size_def word_le_def)
  from vr have tot: "0 \<le> total_size rest"
    by (induction rest) (auto simp: total_size_def range_size_def word_le_def)
  from Cons.prems(3) tot have fit: "k + range_size r \<le> 256"
    by (simp add: total_size_def)
  from scan_lower[OF Cons.prems(1) Cons.prems(4)] Cons.prems(2,3)
  have cb: "0 \<le> code" "code < 256" by simp_all
  then have ucode: "uint (word_of_int code :: 8 word) = code"
    by (simp add: uint_word_of_int take_bit_eq_mod)
  note tst = test_exact[OF v Cons.prems(2) fit, of "word_of_int code", unfolded ucode]
  show ?case
  proof (cases "in_range r c")
    case True
    with Cons.prems(4) have code: "code = k + (uint c - uint (range_begin r))" by simp
    from True have "uint c \<le> uint (range_end r)"
      by (simp add: in_range_def word_le_def)
    then have "\<not> k + range_size r - 1 < code"
      by (simp add: code range_size_def)
    with tst have "trie_to_char_loop ALPHA_CHAR_ERROR (r # rest) (word_of_int code) (word_of_int k)
        = range_begin r + ((ucast (word_of_int code :: 8 word) :: 32 word) - ucast (word_of_int k :: 8 word))"
      by (simp del: of_int_add of_int_diff)
    also have "\<dots> = c"
      unfolding code using return_exact[OF True Cons.prems(2)] cb(2) code by simp
    finally show ?thesis .
  next
    case False
    with Cons.prems(4) have sc: "spec_char_to_trie_scan rest c (k + range_size r) = Some code"
      by simp
    from scan_lower[OF vr sc] have "k + range_size r - 1 < code" by simp
    with tst have "trie_to_char_loop ALPHA_CHAR_ERROR (r # rest) (word_of_int code) (word_of_int k)
        = trie_to_char_loop ALPHA_CHAR_ERROR rest (word_of_int code) (word_of_int (k + range_size r))"
      by (simp add: skip_step del: of_int_add of_int_diff)
    also have "\<dots> = c"
    proof (rule Cons.IH[OF vr _ _ sc])
      from Cons.prems(2) sz show "0 \<le> k + range_size r" by simp
      from Cons.prems(3) show "k + range_size r + total_size rest \<le> 256"
        by (simp add: total_size_def)
    qed
    finally show ?thesis .
  qed
qed

lemma trie_to_char_loop_beyond:
  assumes "list_all (\<lambda>r. range_begin r \<le> range_end r) rs" "0 \<le> k" "k + total_size rs \<le> uint tc"
  shows "trie_to_char_loop ALPHA_CHAR_ERROR rs tc (word_of_int k) = ALPHA_CHAR_ERROR"
  using assms
proof (induction rs arbitrary: k)
  case Nil
  then show ?case by simp
next
  case (Cons r rest)
  from Cons.prems(1) have v: "range_begin r \<le> range_end r"
    and vr: "list_all (\<lambda>r. range_begin r \<le> range_end r) rest" by simp_all
  from v have sz: "1 \<le> range_size r"
    by (simp add: range_size_def word_le_def)
  from vr have tot: "0 \<le> total_size rest"
    by (induction rest) (auto simp: total_size_def range_size_def word_le_def)
  have tcb: "uint tc < 256" using uint_bounded[of tc] by simp
  from Cons.prems(3) tot have lt: "k + range_size r - 1 < uint tc"
    by (simp add: total_size_def)
  with tcb have fit: "k + range_size r \<le> 256" by simp
  from test_exact[OF v Cons.prems(2) fit, of tc] lt
  have "trie_to_char_loop ALPHA_CHAR_ERROR (r # rest) tc (word_of_int k)
        = trie_to_char_loop ALPHA_CHAR_ERROR rest tc (word_of_int (k + range_size r))"
    by (simp add: skip_step del: of_int_add of_int_diff)
  also have "\<dots> = ALPHA_CHAR_ERROR"
  proof (rule Cons.IH[OF vr])
    from Cons.prems(2) sz show "0 \<le> k + range_size r" by simp
    from Cons.prems(3) show "k + range_size r + total_size rest \<le> uint tc"
      by (simp add: total_size_def)
  qed
  finally show ?case .
qed


lemma valid_ranges: "alpha_map_valid m \<Longrightarrow> list_all (\<lambda>r. range_begin r \<le> range_end r) (ranges m)"
  by (simp add: alpha_map_valid_def)

lemma code_word_bounds:
  assumes "1 \<le> code" "code \<le> 255"
  shows "uint (word_of_int code :: 8 word) = code"
  using assms by (simp add: uint_word_of_int take_bit_eq_mod)

lemma char_to_trie_code:
  assumes "ac \<noteq> 0"
  shows "alpha_map_char_to_trie m ac =
     (case spec_char_to_trie_scan (ranges m) ac 1 of None \<Rightarrow> TRIE_CHAR_MAX | Some code \<Rightarrow> word_of_int code)"
  using assms char_to_trie_loop_scan[of "ranges m" ac 1]
  by (simp add: alpha_map_char_to_trie_def)

lemma total_size_append: "total_size (xs @ ys) = total_size xs + total_size ys"
  by (simp add: total_size_def)

lemma total_size_Cons: "total_size (r # rs) = range_size r + total_size rs"
  by (simp add: total_size_def)

text \<open>Every map that the constructors return satisfies \<open>alpha_map_valid\<close>.\<close>

lemma alpha_map_new_valid:
  "alpha_map_new h = (Some alpha_map, h') \<Longrightarrow> alpha_map_valid alpha_map"
  by (auto simp: alpha_map_new_def malloc_def alpha_map_valid_def split: if_splits)

lemma alpha_map_add_range_valid:
  "alpha_map_valid alpha_map \<Longrightarrow>
   alpha_map_add_range alpha_map b e h = (status, alpha_map', h') \<Longrightarrow>
   alpha_map_valid alpha_map'"
  by (auto simp: alpha_map_add_range_def malloc_def alpha_map_valid_def split: if_splits)

section \<open>Streams and the codec loops\<close>

lemma holds_at_Nil: "holds_at xs p [] \<longleftrightarrow> p \<le> length xs"
  by (simp add: holds_at_def)

lemma holds_at_Cons:
  "holds_at xs p (w # ws) \<longleftrightarrow> p < length xs \<and> xs ! p = w \<and> holds_at xs (Suc p) ws"
proof -
  have "(\<forall>i < Suc (length ws). xs ! (p + i) = (w # ws) ! i) \<longleftrightarrow>
        xs ! p = w \<and> (\<forall>i < length ws. xs ! (Suc p + i) = ws ! i)"
    by (auto simp: less_Suc_eq_0_disj)
  then show ?thesis
    by (auto simp: holds_at_def)
qed

lemma holds_at_middle: "holds_at (before @ ws @ after) (length before) ws"
  by (simp add: holds_at_def nth_append)

lemma put_at_length: "i < length (put_at xs i v)"
  by (simp add: put_at_def)

lemma put_at_nth: "put_at xs i v ! i = v"
  by (simp add: put_at_def nth_append)

lemma put_at_other: "j < i \<Longrightarrow> j < length xs \<Longrightarrow> put_at xs i v ! j = xs ! j"
  by (simp add: put_at_def nth_append)

lemma put_at_grows: "length xs \<le> length (put_at xs i v)"
  by (simp add: put_at_def)

lemma put_at_holds: "holds_at (put_at xs p v) p [v]"
  using put_at_length[of p xs v] by (simp add: holds_at_Cons holds_at_Nil put_at_nth Suc_le_eq)

lemma put_at_preserves:
  assumes "holds_at xs q ws" "q + length ws \<le> p"
  shows "holds_at (put_at xs p v) q ws"
  unfolding holds_at_def
proof (intro conjI allI impI)
  from assms(1) put_at_grows[of xs p v] show "q + length ws \<le> length (put_at xs p v)"
    by (simp add: holds_at_def)
next
  fix i assume i: "i < length ws"
  with assms have "q + i < p" "q + i < length xs" by (simp_all add: holds_at_def)
  then have "put_at xs p v ! (q + i) = xs ! (q + i)" by (rule put_at_other)
  with assms(1) i show "put_at xs p v ! (q + i) = ws ! i" by (simp add: holds_at_def)
qed

lemma holds_at_append:
  "holds_at xs p ws \<Longrightarrow> holds_at xs (p + length ws) vs \<Longrightarrow> holds_at xs p (ws @ vs)"
proof (induction ws arbitrary: p)
  case Nil
  then show ?case by simp
next
  case (Cons w ws)
  then show ?case by (simp add: holds_at_Cons)
qed

lemma read_int32_holds:
  "holds_at (content fl) (pos fl) (w # ws) \<Longrightarrow>
   file_read_int32 fl = (Some w, fl\<lparr>pos := Suc (pos fl)\<rparr>)"
  by (simp add: holds_at_Cons file_read_int32_def)

lemma add_range_accepts:
  "b \<le> e \<Longrightarrow> 0 < h \<Longrightarrow>
   alpha_map_add_range m b e h =
     (0, m\<lparr>ranges := ranges m @ [\<lparr>range_begin = b, range_end = e\<rparr>]\<rparr>, h - 1)"
  by (simp add: alpha_map_add_range_def malloc_def)

lemma add_range_drops:
  "\<not> b \<le> e \<Longrightarrow> alpha_map_add_range m b e h = (- 1, m, h)"
  by (simp add: alpha_map_add_range_def not_le)

lemma range_eta: "\<lparr>range_begin = range_begin r, range_end = range_end r\<rparr> = (r :: AlphaRange)"
  by (cases r) simp

lemma read_ranges_holds:
  assumes "holds_at (content fl) (pos fl) (range_words rs)"
    and "length rs = nat (ntotal - i)"
    and "length (accepted rs) \<le> h"
  shows "read_ranges i ntotal m fl h =
           Inr (m\<lparr>ranges := ranges m @ accepted rs\<rparr>,
                fl\<lparr>pos := pos fl + 2 * length rs\<rparr>,
                h - length (accepted rs))"
  using assms
proof (induction rs arbitrary: i m fl h)
  case Nil
  then have "\<not> i < ntotal" by simp
  then show ?case
    by (subst read_ranges.simps) simp
next
  case (Cons r rest)
  from Cons.prems(2) have lt: "i < ntotal" and len: "length rest = nat (ntotal - (i + 1))"
    by simp_all
  let ?f1 = "fl\<lparr>pos := Suc (pos fl)\<rparr>"
  let ?f2 = "fl\<lparr>pos := Suc (Suc (pos fl))\<rparr>"
  from Cons.prems(1) have r1: "file_read_int32 fl = (Some (range_begin r), ?f1)"
    by (simp add: read_int32_holds)
  from Cons.prems(1) have "holds_at (content ?f1) (pos ?f1) (range_end r # range_words rest)"
    by (simp add: holds_at_Cons)
  then have r2: "file_read_int32 ?f1 = (Some (range_end r), ?f2)"
    using read_int32_holds[of ?f1 "range_end r" "range_words rest"] by simp
  from Cons.prems(1) have rest: "holds_at (content ?f2) (pos ?f2) (range_words rest)"
    by (simp add: holds_at_Cons)
  show ?case
  proof (cases "range_begin r \<le> range_end r")
    case True
    with Cons.prems(3) have h: "0 < h" and h': "length (accepted rest) \<le> h - 1" by simp_all
    from Cons.IH[OF rest len h', of "m\<lparr>ranges := ranges m @ [r]\<rparr>"] True h lt r1 r2
    show ?thesis
      by (subst read_ranges.simps) (simp add: add_range_accepts range_eta)
  next
    case False
    with Cons.prems(3) have h': "length (accepted rest) \<le> h" by simp
    from Cons.IH[OF rest len h', of m] False lt r1 r2
    show ?thesis
      by (subst read_ranges.simps) (simp add: add_range_drops)
  qed
qed

lemma read_bin_holds:
  assumes "holds_at (content fl) (pos fl) (ALPHAMAP_SIGNATURE # N # range_words rs)"
    and "length rs = nat (sint N)"
    and "length (accepted rs) < h"
  shows "alpha_map_read_bin fl h =
           Inr (Some \<lparr>ranges = accepted rs\<rparr>,
                fl\<lparr>pos := pos fl + 2 + 2 * length rs\<rparr>,
                h - 1 - length (accepted rs))"
proof -
  let ?f1 = "fl\<lparr>pos := Suc (pos fl)\<rparr>"
  let ?f2 = "fl\<lparr>pos := Suc (Suc (pos fl))\<rparr>"
  from assms(1) have r1: "file_read_int32 fl = (Some ALPHAMAP_SIGNATURE, ?f1)"
    by (simp add: read_int32_holds)
  from assms(1) have "holds_at (content ?f1) (pos ?f1) (N # range_words rs)"
    by (simp add: holds_at_Cons)
  then have r2: "file_read_int32 ?f1 = (Some N, ?f2)"
    using read_int32_holds[of ?f1 N "range_words rs"] by simp
  from assms(1) have rest: "holds_at (content ?f2) (pos ?f2) (range_words rs)"
    by (simp add: holds_at_Cons)
  from assms(3) have new: "alpha_map_new h = (Some \<lparr>ranges = []\<rparr>, h - 1)"
    by (simp add: alpha_map_new_def malloc_def)
  from assms(2) have len: "length rs = nat (sint N - 0)" by simp
  from assms(3) have hp: "length (accepted rs) \<le> h - 1" by simp
  from read_ranges_holds[OF rest len hp, of "\<lparr>ranges = []\<rparr>"]
  have loop: "read_ranges 0 (sint N) \<lparr>ranges = []\<rparr> ?f2 (h - 1) =
      Inr (\<lparr>ranges = accepted rs\<rparr>, fl\<lparr>pos := pos fl + 2 + 2 * length rs\<rparr>,
           h - 1 - length (accepted rs))"
    by simp
  from loop show ?thesis
    by (simp add: alpha_map_read_bin_def ftell_def r1 r2 new)
qed

lemma write_int32_ok:
  assumes "file_write_int32 fl v = (True, fl')"
  shows "pos fl' = Suc (pos fl)" and "pos fl' \<le> length (content fl')"
    and "holds_at (content fl') (pos fl) [v]"
    and "\<And>q ws. holds_at (content fl) q ws \<Longrightarrow> q + length ws \<le> pos fl \<Longrightarrow>
           holds_at (content fl') q ws"
  using assms
  using put_at_length[of "pos fl" "content fl" v]
  by (auto simp: file_write_int32_def put_at_holds put_at_preserves Suc_le_eq split: if_splits)

lemma write_ranges_ok:
  assumes "write_ranges rs fl = (0, fl')" and "pos fl \<le> length (content fl)"
  shows "pos fl' = pos fl + 2 * length rs \<and>
         holds_at (content fl') (pos fl) (range_words rs) \<and>
         (\<forall>q ws. holds_at (content fl) q ws \<and> q + length ws \<le> pos fl \<longrightarrow>
                 holds_at (content fl') q ws)"
  using assms
proof (induction rs arbitrary: fl)
  case Nil
  then show ?case by (simp add: holds_at_Nil)
next
  case (Cons r rest)
  obtain ok1 f1 where w1: "file_write_int32 fl (range_begin r) = (ok1, f1)" by force
  obtain ok2 f2 where w2: "file_write_int32 f1 (range_end r) = (ok2, f2)" by force
  from Cons.prems(1) w1 have ok1: ok1 by (auto split: if_splits)
  from Cons.prems(1) w1 w2 ok1 have ok2: ok2 by (auto split: if_splits)
  from Cons.prems(1) w1 w2 ok1 ok2 have rest: "write_ranges rest f2 = (0, fl')" by simp
  note a = write_int32_ok[OF w1[unfolded ok1[THEN eqTrueI]]]
  note b = write_int32_ok[OF w2[unfolded ok2[THEN eqTrueI]]]
  note c = Cons.IH[OF rest b(2)]
  have p2: "pos f2 = Suc (Suc (pos fl))" using a(1) b(1) by simp
  have keep: "\<forall>q ws. holds_at (content fl) q ws \<and> q + length ws \<le> pos fl \<longrightarrow>
                 holds_at (content fl') q ws"
  proof (intro allI impI)
    fix q ws assume h: "holds_at (content fl) q ws \<and> q + length ws \<le> pos fl"
    then have "holds_at (content f1) q ws" using a(4) by blast
    moreover from h a(1) have "q + length ws \<le> pos f1" by simp
    ultimately have "holds_at (content f2) q ws" using b(4) by blast
    moreover from h p2 have "q + length ws \<le> pos f2" by simp
    ultimately show "holds_at (content fl') q ws" using c by blast
  qed
  have first: "holds_at (content fl') (pos fl) [range_begin r]"
  proof -
    from a(3) a(1) have "holds_at (content f2) (pos fl) [range_begin r]"
      using b(4)[of "pos fl" "[range_begin r]"] by simp
    then show ?thesis using c p2 by auto
  qed
  have second: "holds_at (content fl') (Suc (pos fl)) [range_end r]"
  proof -
    from b(3) a(1) have "holds_at (content f2) (Suc (pos fl)) [range_end r]" by simp
    then show ?thesis using c p2 by auto
  qed
  from c p2 have third: "holds_at (content fl') (Suc (Suc (pos fl))) (range_words rest)"
    by simp
  from first second third have "holds_at (content fl') (pos fl) (range_words (r # rest))"
    by (simp add: holds_at_Cons)
  moreover from c p2 have "pos fl' = pos fl + 2 * length (r # rest)" by simp
  ultimately show ?case using keep by blast
qed

lemma count_ranges_length: "count_ranges rs n = n + int (length rs)"
  by (induction rs arbitrary: n) simp_all

lemma write_bin_ok:
  assumes "alpha_map_write_bin m fl = (0, fl')"
  shows "pos fl' = pos fl + 2 + 2 * length (ranges m) \<and>
         holds_at (content fl') (pos fl)
           (ALPHAMAP_SIGNATURE # word_of_nat (length (ranges m)) # range_words (ranges m))"
proof -
  let ?n = "word_of_nat (length (ranges m)) :: int32"
  obtain ok1 f1 where w1: "file_write_int32 fl ALPHAMAP_SIGNATURE = (ok1, f1)" by force
  obtain ok2 f2 where w2: "file_write_int32 f1 ?n = (ok2, f2)" by force
  from assms w1 have ok1: ok1
    by (auto simp: alpha_map_write_bin_def split: if_splits)
  from assms w1 w2 ok1 have ok2: ok2
    by (auto simp: alpha_map_write_bin_def alpha_map_get_total_ranges_def count_ranges_length
             split: if_splits)
  from assms w1 w2 ok1 ok2 have rest: "write_ranges (ranges m) f2 = (0, fl')"
    by (simp add: alpha_map_write_bin_def alpha_map_get_total_ranges_def count_ranges_length)
  note a = write_int32_ok[OF w1[unfolded ok1[THEN eqTrueI]]]
  note b = write_int32_ok[OF w2[unfolded ok2[THEN eqTrueI]]]
  note c = write_ranges_ok[OF rest b(2)]
  have p2: "pos f2 = Suc (Suc (pos fl))" using a(1) b(1) by simp
  have first: "holds_at (content fl') (pos fl) [ALPHAMAP_SIGNATURE]"
  proof -
    from a(3) a(1) have "holds_at (content f2) (pos fl) [ALPHAMAP_SIGNATURE]"
      using b(4)[of "pos fl" "[ALPHAMAP_SIGNATURE]"] by simp
    then show ?thesis using c p2 by auto
  qed
  have second: "holds_at (content fl') (Suc (pos fl)) [?n]"
  proof -
    from b(3) a(1) have "holds_at (content f2) (Suc (pos fl)) [?n]" by simp
    then show ?thesis using c p2 by auto
  qed
  from c p2 have third: "holds_at (content fl') (Suc (Suc (pos fl))) (range_words (ranges m))"
    by simp
  from first second third
  have "holds_at (content fl') (pos fl) (ALPHAMAP_SIGNATURE # ?n # range_words (ranges m))"
    by (simp add: holds_at_Cons)
  moreover from c p2 have "pos fl' = pos fl + 2 + 2 * length (ranges m)" by simp
  ultimately show ?thesis by blast
qed

lemma sint_count:
  assumes "n < 2 ^ 31"
  shows "sint (word_of_nat n :: 32 word) = int n"
proof -
  from assms have "int n < 2 ^ 31" by simp
  then show ?thesis
    by (simp add: signed_of_nat signed_take_bit_int_eq_self)
qed

lemma accepted_valid: "alpha_map_valid m \<Longrightarrow> accepted (ranges m) = ranges m"
  by (simp add: alpha_map_valid_def list_all_iff)

lemma read_ranges_valid:
  "alpha_map_valid m \<Longrightarrow> read_ranges i ntotal m fl h = Inr (m', fl', h') \<Longrightarrow> alpha_map_valid m'"
proof (induction i ntotal m fl h rule: read_ranges.induct)
  case (1 i ntotal alpha_map fl h)
  show ?case
  proof (cases "i < ntotal")
    case False
    with "1.prems" show ?thesis by (simp add: read_ranges.simps)
  next
    case True
    from True "1.prems"(2) obtain b f1 e f2 where
      r1: "file_read_int32 fl = (Some b, f1)" and r2: "file_read_int32 f1 = (Some e, f2)"
      by (subst (asm) read_ranges.simps) (auto split: prod.splits option.splits)
    obtain status m1 h1 where ar: "alpha_map_add_range alpha_map b e h = (status, m1, h1)"
      by (cases "alpha_map_add_range alpha_map b e h") auto
    from True "1.prems"(2) r1 r2 ar have rec: "read_ranges (i + 1) ntotal m1 f2 h1 = Inr (m', fl', h')"
      by (subst (asm) read_ranges.simps) simp
    have "alpha_map_valid m1"
      by (rule alpha_map_add_range_valid[OF "1.prems"(1) ar])
    from "1.IH"[OF True r1[symmetric] refl r2[symmetric] refl ar[symmetric] refl this rec]
    show ?thesis .
  qed
qed

lemma alpha_map_read_bin_valid:
  assumes "alpha_map_read_bin fl h = Inr (Some m, fl', h')"
  shows "alpha_map_valid m"
proof -
  obtain sig f1 where r1: "file_read_int32 fl = (sig, f1)" by force
  obtain am h1 where new: "alpha_map_new h = (am, h1)" by force
  obtain t f2 where r2: "file_read_int32 f1 = (t, f2)" by force
  from assms r1 new r2 obtain m0 where m0: "am = Some m0"
    by (cases am) (auto simp: alpha_map_read_bin_def split: if_splits)
  from assms r1 new r2 m0 obtain N where N: "t = Some N"
    by (cases t) (auto simp: alpha_map_read_bin_def split: if_splits)
  from assms r1 new r2 m0 N have loop: "read_ranges 0 (sint N) m0 f2 h1 = Inr (m, fl', h')"
    by (auto simp: alpha_map_read_bin_def split: if_splits sum.splits)
  from new m0 have "alpha_map_valid m0"
    by (simp add: alpha_map_new_valid)
  from read_ranges_valid[OF this loop] show ?thesis .
qed

text \<open>A write of the whole block succeeds when the stream has room for it.\<close>

lemma write_int32_room:
  "pos fl < capacity fl \<Longrightarrow>
   \<exists>fl'. file_write_int32 fl v = (True, fl') \<and> pos fl' = Suc (pos fl) \<and> capacity fl' = capacity fl"
  by (simp add: file_write_int32_def)

lemma write_ranges_room:
  "pos fl + 2 * length rs \<le> capacity fl \<Longrightarrow> fst (write_ranges rs fl) = 0"
proof (induction rs arbitrary: fl)
  case Nil
  then show ?case by simp
next
  case (Cons r rest)
  from Cons.prems have "pos fl < capacity fl" by simp
  from write_int32_room[OF this, of "range_begin r"] obtain f1 where
    w1: "file_write_int32 fl (range_begin r) = (True, f1)" and p1: "pos f1 = Suc (pos fl)"
    and c1: "capacity f1 = capacity fl" by blast
  from Cons.prems p1 c1 have "pos f1 < capacity f1" by simp
  from write_int32_room[OF this, of "range_end r"] obtain f2 where
    w2: "file_write_int32 f1 (range_end r) = (True, f2)" and p2: "pos f2 = Suc (pos f1)"
    and c2: "capacity f2 = capacity f1" by blast
  from Cons.prems p1 p2 c1 c2 have "pos f2 + 2 * length rest \<le> capacity f2" by simp
  from Cons.IH[OF this] w1 w2 show ?case by simp
qed

lemma write_bin_room:
  assumes "pos fl + 2 + 2 * length (ranges m) \<le> capacity fl"
  shows "fst (alpha_map_write_bin m fl) = 0"
proof -
  from assms have "pos fl < capacity fl" by simp
  from write_int32_room[OF this, of ALPHAMAP_SIGNATURE] obtain f1 where
    w1: "file_write_int32 fl ALPHAMAP_SIGNATURE = (True, f1)" and p1: "pos f1 = Suc (pos fl)"
    and c1: "capacity f1 = capacity fl" by blast
  from assms p1 c1 have "pos f1 < capacity f1" by simp
  from write_int32_room[OF this, of "word_of_int (alpha_map_get_total_ranges m)"] obtain f2 where
    w2: "file_write_int32 f1 (word_of_int (alpha_map_get_total_ranges m)) = (True, f2)"
    and p2: "pos f2 = Suc (pos f1)" and c2: "capacity f2 = capacity f1" by blast
  from assms p1 p2 c1 c2 have "pos f2 + 2 * length (ranges m) \<le> capacity f2" by simp
  from write_ranges_room[OF this] w1 w2 show ?thesis
    by (simp add: alpha_map_write_bin_def)
qed

section \<open>Zero is preserved\<close>

text \<open>
  C10. For every map, the empty one included, \<^verbatim>\<open>alpha_map_char_to_trie\<close> maps the
  external character 0 to the compact code 0 and \<^verbatim>\<open>alpha_map_trie_to_char\<close> maps the
  compact code 0 to the external character 0. Both results are the same for every
  range list: the test for 0 comes before the loop and the list is not consulted.
\<close>

theorem zero_preserved:
  "alpha_map_char_to_trie alpha_map 0 = 0 \<and>
   alpha_map_trie_to_char ALPHA_CHAR_ERROR alpha_map 0 = 0"
  by (simp add: alpha_map_char_to_trie_def alpha_map_trie_to_char_def)

section \<open>Round trip of the two lookups\<close>

text \<open>
  C1, as amended. For every map whose ranges all have \<open>begin \<le> end\<close> (as
  \<^verbatim>\<open>alpha_map_add_range\<close> guarantees) and cover at most 255 characters in total, so that
  every assigned compact code fits \<^verbatim>\<open>TrieChar\<close>, and for every external character \<open>c\<close>
  inside one of the ranges, \<^verbatim>\<open>alpha_map_trie_to_char\<close> applied to the result of
  \<^verbatim>\<open>alpha_map_char_to_trie\<close> returns \<open>c\<close>. The ranges may overlap and come in any order.
\<close>

theorem round_trip_fits:
  assumes "alpha_map_valid alpha_map" and "total_size (ranges alpha_map) \<le> 255"
    and "\<exists>r \<in> set (ranges alpha_map). in_range r c"
  shows "alpha_map_trie_to_char ALPHA_CHAR_ERROR alpha_map (alpha_map_char_to_trie alpha_map c) = c"
proof (cases "c = 0")
  case True
  then show ?thesis
    by (simp add: alpha_map_char_to_trie_def alpha_map_trie_to_char_def)
next
  case False
  from scan_found[OF assms(3)] obtain code
    where sc: "spec_char_to_trie_scan (ranges alpha_map) c 1 = Some code" by blast
  from scan_lower[OF valid_ranges[OF assms(1)] sc] assms(2)
  have cb: "1 \<le> code" "code \<le> 255" by simp_all
  from False sc have ct: "alpha_map_char_to_trie alpha_map c = word_of_int code"
    by (simp add: char_to_trie_code)
  from code_word_bounds[OF cb] cb have nz: "(word_of_int code :: 8 word) \<noteq> 0"
    by (metis uint_0_eq not_one_le_zero)
  from trie_to_char_loop_scan[OF valid_ranges[OF assms(1)] _ _ sc, of ALPHA_CHAR_ERROR] assms(2)
  have "trie_to_char_loop ALPHA_CHAR_ERROR (ranges alpha_map) (word_of_int code) 1 = c"
    by simp
  with nz show ?thesis
    by (simp add: ct alpha_map_trie_to_char_def)
qed

theorem round_trip_fits_witness:
  "alpha_map_valid \<lparr>ranges = [\<lparr>range_begin = 0x41, range_end = 0x5A\<rparr>, \<lparr>range_begin = 0x61, range_end = 0x7A\<rparr>]\<rparr> \<and>
   total_size (ranges \<lparr>ranges = [\<lparr>range_begin = 0x41, range_end = 0x5A\<rparr>, \<lparr>range_begin = 0x61, range_end = 0x7A\<rparr>]\<rparr>) \<le> 255 \<and>
   (\<exists>r \<in> set (ranges \<lparr>ranges = [\<lparr>range_begin = 0x41, range_end = 0x5A\<rparr>, \<lparr>range_begin = 0x61, range_end = 0x7A\<rparr>]\<rparr>). in_range r 0x62) \<and>
   alpha_map_trie_to_char 0xFFFFFFFF \<lparr>ranges = [\<lparr>range_begin = 0x41, range_end = 0x5A\<rparr>, \<lparr>range_begin = 0x61, range_end = 0x7A\<rparr>]\<rparr>
     (alpha_map_char_to_trie \<lparr>ranges = [\<lparr>range_begin = 0x41, range_end = 0x5A\<rparr>, \<lparr>range_begin = 0x61, range_end = 0x7A\<rparr>]\<rparr> 0x62) = 0x62"
proof -
  let ?m = "\<lparr>ranges = [\<lparr>range_begin = 0x41, range_end = 0x5A\<rparr>, \<lparr>range_begin = 0x61, range_end = 0x7A\<rparr>]\<rparr>"
  have h1: "alpha_map_valid ?m" by (simp add: alpha_map_valid_def)
  have h2: "total_size (ranges ?m) \<le> 255" by (simp add: total_size_def range_size_def)
  have h3: "\<exists>r \<in> set (ranges ?m). in_range r 0x62" by (simp add: in_range_def)
  from h1 h2 h3 round_trip_fits[OF h1 h2 h3, of "0xFFFFFFFF"] show ?thesis by blast
qed

text \<open>
  Without the bound the round trip fails: the single range \<open>[1, 256]\<close> is accepted, the
  code of its last character 256 is reduced to the 8 bits of \<^verbatim>\<open>TrieChar\<close> and becomes 0,
  and 0 is mapped back to 0.
\<close>

theorem round_trip_counterexample:
  "alpha_map_add_range \<lparr>ranges = []\<rparr> 1 256 1 = (0, \<lparr>ranges = [\<lparr>range_begin = 1, range_end = 256\<rparr>]\<rparr>, 0) \<and>
   in_range \<lparr>range_begin = 1, range_end = 256\<rparr> 256 \<and>
   alpha_map_char_to_trie \<lparr>ranges = [\<lparr>range_begin = 1, range_end = 256\<rparr>]\<rparr> 256 = 0 \<and>
   alpha_map_trie_to_char 0xFFFFFFFF \<lparr>ranges = [\<lparr>range_begin = 1, range_end = 256\<rparr>]\<rparr>
     (alpha_map_char_to_trie \<lparr>ranges = [\<lparr>range_begin = 1, range_end = 256\<rparr>]\<rparr> 256) \<noteq> 256"
  by (simp add: alpha_map_add_range_def malloc_def in_range_def alpha_map_char_to_trie_def
      alpha_map_trie_to_char_def)

section \<open>The scan of \<^verbatim>\<open>alpha_map_char_to_trie\<close>\<close>

text \<open>
  C2, as amended. For a character other than 0, \<^verbatim>\<open>alpha_map_char_to_trie\<close> scans the
  ranges in insertion order with an accumulator starting at 1, adds \<open>end - begin + 1\<close>
  for each skipped range, and for the first range that contains the character returns
  the accumulator plus \<open>c - begin\<close>, reduced modulo 256, the width of \<^verbatim>\<open>TrieChar\<close>; it
  returns \<^verbatim>\<open>TRIE_CHAR_MAX\<close> when no range contains the character. When the ranges
  all have \<open>begin \<le> end\<close> and cover at most 255 characters in total, the code
  returned is the accumulator plus \<open>c - begin\<close> itself, with no reduction. For the map
  built by adding \<open>[0x41, 0x5A]\<close> and then \<open>[0x61, 0x7A]\<close> to a new map, it maps 0x41
  to 1, 0x5A to 26, 0x61 to 27, 0x7A to 52 and 0x30 to \<^verbatim>\<open>TRIE_CHAR_MAX\<close>.
\<close>

theorem char_to_trie_refines_scan:
  "(ac \<noteq> 0 \<longrightarrow>
      (case spec_char_to_trie_scan (ranges alpha_map) ac 1 of
         None \<Rightarrow> alpha_map_char_to_trie alpha_map ac = TRIE_CHAR_MAX
       | Some code \<Rightarrow> uint (alpha_map_char_to_trie alpha_map ac) = code mod 256)) \<and>
   (ac \<noteq> 0 \<and> alpha_map_valid alpha_map \<and> total_size (ranges alpha_map) \<le> 255 \<longrightarrow>
      (case spec_char_to_trie_scan (ranges alpha_map) ac 1 of
         None \<Rightarrow> alpha_map_char_to_trie alpha_map ac = TRIE_CHAR_MAX
       | Some code \<Rightarrow> uint (alpha_map_char_to_trie alpha_map ac) = code)) \<and>
   (alpha_map_new h = (Some m0, h0) \<and>
    alpha_map_add_range m0 0x41 0x5A h0 = (0, m1, h1) \<and>
    alpha_map_add_range m1 0x61 0x7A h1 = (0, m2, h2) \<longrightarrow>
      alpha_map_char_to_trie m2 0x41 = 1 \<and>
      alpha_map_char_to_trie m2 0x5A = 26 \<and>
      alpha_map_char_to_trie m2 0x61 = 27 \<and>
      alpha_map_char_to_trie m2 0x7A = 52 \<and>
      alpha_map_char_to_trie m2 0x30 = TRIE_CHAR_MAX)"
proof (intro conjI impI)
  assume nz: "ac \<noteq> 0"
  show "case spec_char_to_trie_scan (ranges alpha_map) ac 1 of
         None \<Rightarrow> alpha_map_char_to_trie alpha_map ac = TRIE_CHAR_MAX
       | Some code \<Rightarrow> uint (alpha_map_char_to_trie alpha_map ac) = code mod 256"
  proof (cases "spec_char_to_trie_scan (ranges alpha_map) ac 1")
    case None
    with nz show ?thesis by (simp add: char_to_trie_code)
  next
    case (Some code)
    with nz have "alpha_map_char_to_trie alpha_map ac = word_of_int code"
      by (simp add: char_to_trie_code)
    with Some show ?thesis
      by (simp add: uint_word_of_int take_bit_eq_mod)
  qed
next
  assume a: "ac \<noteq> 0 \<and> alpha_map_valid alpha_map \<and> total_size (ranges alpha_map) \<le> 255"
  show "case spec_char_to_trie_scan (ranges alpha_map) ac 1 of
         None \<Rightarrow> alpha_map_char_to_trie alpha_map ac = TRIE_CHAR_MAX
       | Some code \<Rightarrow> uint (alpha_map_char_to_trie alpha_map ac) = code"
  proof (cases "spec_char_to_trie_scan (ranges alpha_map) ac 1")
    case None
    with a show ?thesis by (simp add: char_to_trie_code)
  next
    case (Some code)
    from a have v: "list_all (\<lambda>r. range_begin r \<le> range_end r) (ranges alpha_map)"
      by (simp add: valid_ranges)
    from scan_lower[OF v Some] a have cb: "1 \<le> code" "code \<le> 255" by simp_all
    from a Some have "alpha_map_char_to_trie alpha_map ac = word_of_int code"
      by (simp add: char_to_trie_code)
    with code_word_bounds[OF cb] Some show ?thesis by simp
  qed
next
  assume built: "alpha_map_new h = (Some m0, h0) \<and>
    alpha_map_add_range m0 0x41 0x5A h0 = (0, m1, h1) \<and>
    alpha_map_add_range m1 0x61 0x7A h1 = (0, m2, h2)"
  then have m0: "m0 = \<lparr>ranges = []\<rparr>"
    by (auto simp: alpha_map_new_def malloc_def split: if_splits)
  from built have m1: "m1 = m0\<lparr>ranges := ranges m0 @ [\<lparr>range_begin = 0x41, range_end = 0x5A\<rparr>]\<rparr>"
    by (auto simp: alpha_map_add_range_def malloc_def split: if_splits)
  from built have m2: "m2 = m1\<lparr>ranges := ranges m1 @ [\<lparr>range_begin = 0x61, range_end = 0x7A\<rparr>]\<rparr>"
    by (auto simp: alpha_map_add_range_def malloc_def split: if_splits)
  have rs: "ranges m2 = [\<lparr>range_begin = 0x41, range_end = 0x5A\<rparr>, \<lparr>range_begin = 0x61, range_end = 0x7A\<rparr>]"
    by (simp add: m0 m1 m2)
  show "alpha_map_char_to_trie m2 0x41 = 1"
    by (simp add: alpha_map_char_to_trie_def rs)
  show "alpha_map_char_to_trie m2 0x5A = 26"
    by (simp add: alpha_map_char_to_trie_def rs)
  show "alpha_map_char_to_trie m2 0x61 = 27"
    by (simp add: alpha_map_char_to_trie_def rs)
  show "alpha_map_char_to_trie m2 0x7A = 52"
    by (simp add: alpha_map_char_to_trie_def rs)
  show "alpha_map_char_to_trie m2 0x30 = TRIE_CHAR_MAX"
    by (simp add: alpha_map_char_to_trie_def rs)
qed

theorem char_to_trie_refines_scan_witness:
  "(0x61 :: AlphaChar) \<noteq> 0 \<and>
   alpha_map_valid \<lparr>ranges = [\<lparr>range_begin = 0x41, range_end = 0x5A\<rparr>,
                              \<lparr>range_begin = 0x61, range_end = 0x7A\<rparr>]\<rparr> \<and>
   total_size [\<lparr>range_begin = 0x41, range_end = 0x5A\<rparr>,
               \<lparr>range_begin = 0x61, range_end = 0x7A\<rparr>] \<le> 255 \<and>
   alpha_map_new 3 = (Some \<lparr>ranges = []\<rparr>, 2) \<and>
   alpha_map_add_range \<lparr>ranges = []\<rparr> 0x41 0x5A 2 =
     (0, \<lparr>ranges = [\<lparr>range_begin = 0x41, range_end = 0x5A\<rparr>]\<rparr>, 1) \<and>
   alpha_map_add_range \<lparr>ranges = [\<lparr>range_begin = 0x41, range_end = 0x5A\<rparr>]\<rparr> 0x61 0x7A 1 =
     (0, \<lparr>ranges = [\<lparr>range_begin = 0x41, range_end = 0x5A\<rparr>,
                     \<lparr>range_begin = 0x61, range_end = 0x7A\<rparr>]\<rparr>, 0) \<and>
   spec_char_to_trie_scan [\<lparr>range_begin = 0x41, range_end = 0x5A\<rparr>,
                           \<lparr>range_begin = 0x61, range_end = 0x7A\<rparr>] 0x61 1 = Some 27 \<and>
   uint (alpha_map_char_to_trie \<lparr>ranges = [\<lparr>range_begin = 0x41, range_end = 0x5A\<rparr>,
                                           \<lparr>range_begin = 0x61, range_end = 0x7A\<rparr>]\<rparr> 0x61) = 27 \<and>
   alpha_map_char_to_trie \<lparr>ranges = [\<lparr>range_begin = 0x41, range_end = 0x5A\<rparr>,
                                     \<lparr>range_begin = 0x61, range_end = 0x7A\<rparr>]\<rparr> 0x30 = TRIE_CHAR_MAX"
proof -
  let ?m1 = "\<lparr>ranges = [\<lparr>range_begin = 0x41, range_end = 0x5A\<rparr>]\<rparr>"
  let ?m2 = "\<lparr>ranges = [\<lparr>range_begin = 0x41, range_end = 0x5A\<rparr>,
                     \<lparr>range_begin = 0x61, range_end = 0x7A\<rparr>]\<rparr>"
  have nz: "(0x61 :: AlphaChar) \<noteq> 0" by simp
  have v: "alpha_map_valid ?m2" by (simp add: alpha_map_valid_def)
  have t: "total_size (ranges ?m2) \<le> 255" by (simp add: total_size_def range_size_def)
  have b0: "alpha_map_new 3 = (Some \<lparr>ranges = []\<rparr>, 2)"
    by (simp add: alpha_map_new_def malloc_def)
  have b1: "alpha_map_add_range \<lparr>ranges = []\<rparr> 0x41 0x5A 2 = (0, ?m1, 1)"
    by (simp add: alpha_map_add_range_def malloc_def)
  have b2: "alpha_map_add_range ?m1 0x61 0x7A 1 = (0, ?m2, 0)"
    by (simp add: alpha_map_add_range_def malloc_def)
  have sc: "spec_char_to_trie_scan (ranges ?m2) 0x61 1 = Some 27"
    by (simp add: in_range_def range_size_def)
  from char_to_trie_refines_scan[of "0x61" ?m2 3 "\<lparr>ranges = []\<rparr>" 2 ?m1 1 ?m2 0] nz v t b0 b1 b2 sc
  show ?thesis by simp
qed

text \<open>
  Without the reduction the formula fails: the range \<open>[1, 256]\<close> is accepted, the scan
  gives its last character 256 the value \<open>1 + (256 - 1) = 256\<close>, and the function, whose
  accumulator and result are \<^verbatim>\<open>TrieChar\<close>, returns 0.
\<close>

theorem char_to_trie_wraps_counterexample:
  "alpha_map_add_range \<lparr>ranges = []\<rparr> 1 256 1 =
     (0, \<lparr>ranges = [\<lparr>range_begin = 1, range_end = 256\<rparr>]\<rparr>, 0) \<and>
   (256 :: AlphaChar) \<noteq> 0 \<and>
   in_range \<lparr>range_begin = 1, range_end = 256\<rparr> 256 \<and>
   spec_char_to_trie_scan [\<lparr>range_begin = 1, range_end = 256\<rparr>] 256 1 = Some 256 \<and>
   alpha_map_char_to_trie \<lparr>ranges = [\<lparr>range_begin = 1, range_end = 256\<rparr>]\<rparr> 256 = 0 \<and>
   uint (alpha_map_char_to_trie \<lparr>ranges = [\<lparr>range_begin = 1, range_end = 256\<rparr>]\<rparr> 256) \<noteq> 256"
  by (simp add: alpha_map_add_range_def malloc_def in_range_def alpha_map_char_to_trie_def)

section \<open>Assigned codes and the sentinels\<close>

text \<open>
  C5, as amended. For every map whose ranges all have \<open>begin \<le> end\<close> and cover at most
  254 characters in total, and every external character \<open>c\<close> other than 0 inside one of
  the ranges, the code \<^verbatim>\<open>alpha_map_char_to_trie\<close> returns is neither 0 nor
  \<^verbatim>\<open>TRIE_CHAR_MAX\<close>.
\<close>

theorem assigned_code_not_sentinel:
  assumes "alpha_map_valid alpha_map" and "total_size (ranges alpha_map) \<le> 254"
    and "c \<noteq> 0" and "\<exists>r \<in> set (ranges alpha_map). in_range r c"
  shows "alpha_map_char_to_trie alpha_map c \<noteq> 0 \<and>
         alpha_map_char_to_trie alpha_map c \<noteq> TRIE_CHAR_MAX"
proof -
  from scan_found[OF assms(4)] obtain code
    where sc: "spec_char_to_trie_scan (ranges alpha_map) c 1 = Some code" by blast
  from scan_lower[OF valid_ranges[OF assms(1)] sc] assms(2)
  have cb: "1 \<le> code" "code \<le> 254" by simp_all
  from assms(3) sc have ct: "alpha_map_char_to_trie alpha_map c = word_of_int code"
    by (simp add: char_to_trie_code)
  from cb have u: "uint (alpha_map_char_to_trie alpha_map c) = code"
    by (simp add: ct code_word_bounds)
  from u cb have "alpha_map_char_to_trie alpha_map c \<noteq> 0"
    by (metis uint_0_eq not_one_le_zero)
  moreover from u cb have "alpha_map_char_to_trie alpha_map c \<noteq> TRIE_CHAR_MAX"
    by (auto simp: TRIE_CHAR_MAX_def)
  ultimately show ?thesis by simp
qed

theorem assigned_code_not_sentinel_witness:
  "alpha_map_valid \<lparr>ranges = [\<lparr>range_begin = 0x41, range_end = 0x5A\<rparr>,
                              \<lparr>range_begin = 0x61, range_end = 0x7A\<rparr>]\<rparr> \<and>
   total_size [\<lparr>range_begin = 0x41, range_end = 0x5A\<rparr>,
               \<lparr>range_begin = 0x61, range_end = 0x7A\<rparr>] \<le> 254 \<and>
   (0x62 :: AlphaChar) \<noteq> 0 \<and>
   in_range \<lparr>range_begin = 0x61, range_end = 0x7A\<rparr> 0x62 \<and>
   alpha_map_char_to_trie \<lparr>ranges = [\<lparr>range_begin = 0x41, range_end = 0x5A\<rparr>,
                                     \<lparr>range_begin = 0x61, range_end = 0x7A\<rparr>]\<rparr> 0x62 \<noteq> 0 \<and>
   alpha_map_char_to_trie \<lparr>ranges = [\<lparr>range_begin = 0x41, range_end = 0x5A\<rparr>,
                                     \<lparr>range_begin = 0x61, range_end = 0x7A\<rparr>]\<rparr> 0x62
     \<noteq> TRIE_CHAR_MAX"
proof -
  let ?m = "\<lparr>ranges = [\<lparr>range_begin = 0x41, range_end = 0x5A\<rparr>,
                    \<lparr>range_begin = 0x61, range_end = 0x7A\<rparr>]\<rparr>"
  have h1: "alpha_map_valid ?m" by (simp add: alpha_map_valid_def)
  have h2: "total_size (ranges ?m) \<le> 254" by (simp add: total_size_def range_size_def)
  have h3: "(0x62 :: AlphaChar) \<noteq> 0" by simp
  have h4: "in_range \<lparr>range_begin = 0x61, range_end = 0x7A\<rparr> 0x62" by (simp add: in_range_def)
  then have h5: "\<exists>r \<in> set (ranges ?m). in_range r 0x62" by simp
  from assigned_code_not_sentinel[OF h1 h2 h3 h5] h1 h2 h3 h4 show ?thesis by simp
qed

text \<open>
  The claim fails where the codes leave the 8 bits of \<^verbatim>\<open>TrieChar\<close>, and at the
  character 0: the last character of \<open>[1, 255]\<close> gets the code 255, which is
  \<^verbatim>\<open>TRIE_CHAR_MAX\<close>; the last character of \<open>[1, 256]\<close> gets 256 reduced to 0; and the
  character 0 of the range \<open>[0, 5]\<close> gets 0 from the test that precedes the loop.
\<close>

theorem assigned_code_sentinel_counterexample:
  "in_range \<lparr>range_begin = 1, range_end = 255\<rparr> 255 \<and>
   alpha_map_char_to_trie \<lparr>ranges = [\<lparr>range_begin = 1, range_end = 255\<rparr>]\<rparr> 255 = TRIE_CHAR_MAX \<and>
   in_range \<lparr>range_begin = 1, range_end = 256\<rparr> 256 \<and>
   alpha_map_char_to_trie \<lparr>ranges = [\<lparr>range_begin = 1, range_end = 256\<rparr>]\<rparr> 256 = 0 \<and>
   in_range \<lparr>range_begin = 0, range_end = 5\<rparr> 0 \<and>
   alpha_map_char_to_trie \<lparr>ranges = [\<lparr>range_begin = 0, range_end = 5\<rparr>]\<rparr> 0 = 0"
  by (simp add: in_range_def alpha_map_char_to_trie_def TRIE_CHAR_MAX_def)

section \<open>Monotonic compaction\<close>

text \<open>
  C6, as amended. Let the ranges of a map, all with \<open>begin \<le> end\<close>, cover at most 255
  characters in total, and let \<open>R1\<close> be inserted before \<open>R2\<close> with
  \<open>R1.end < R2.begin\<close>. For every character \<open>c1\<close> of \<open>R1\<close> and every character \<open>c2\<close> of
  \<open>R2\<close> that lies in no range inserted before \<open>R1\<close> (as when the ranges are pairwise
  disjoint), the code of \<open>c1\<close> is strictly less than the code of \<open>c2\<close>.
\<close>

theorem monotonic_compaction:
  assumes valid: "alpha_map_valid alpha_map"
    and fits: "total_size (ranges alpha_map) \<le> 255"
    and order: "ranges alpha_map = xs @ [R1] @ ys @ [R2] @ zs"
    and apart: "range_end R1 < range_begin R2"
    and c1: "in_range R1 c1" and c2: "in_range R2 c2"
    and fresh: "\<forall>r \<in> set xs. \<not> in_range r c2"
  shows "alpha_map_char_to_trie alpha_map c1 < alpha_map_char_to_trie alpha_map c2"
proof -
  let ?v = "\<lambda>r. range_begin r \<le> range_end r"
  from valid order have v: "list_all ?v (xs @ [R1] @ ys @ [R2] @ zs)"
    by (simp add: alpha_map_valid_def)
  then have vtail: "list_all ?v (ys @ [R2] @ zs)" and vhead: "list_all ?v (xs @ [R1])"
    by simp_all
  from apart c2 have not1: "\<not> in_range R1 c2"
    by (auto simp: in_range_def)
  from apart c2 have nz2: "c2 \<noteq> 0"
    by (auto simp: in_range_def word_le_def word_less_def)
  \<comment> \<open>the code of \<open>c2\<close>\<close>
  have "spec_char_to_trie_scan (ranges alpha_map) c2 1 =
          spec_char_to_trie_scan ([R1] @ ys @ [R2] @ zs) c2 (1 + total_size xs)"
    unfolding order by (rule scan_append_skip[OF fresh])
  also from not1 have "\<dots> = spec_char_to_trie_scan (ys @ [R2] @ zs) c2 (1 + total_size xs + range_size R1)"
    by simp
  finally have eq2: "spec_char_to_trie_scan (ranges alpha_map) c2 1 =
      spec_char_to_trie_scan (ys @ [R2] @ zs) c2 (1 + total_size xs + range_size R1)" .
  from c2 have "\<exists>r \<in> set (ys @ [R2] @ zs). in_range r c2" by auto
  from scan_found[OF this] obtain j2
    where s2: "spec_char_to_trie_scan (ys @ [R2] @ zs) c2 (1 + total_size xs + range_size R1) = Some j2"
    by blast
  from scan_lower[OF vtail s2] have low2: "1 + total_size xs + range_size R1 \<le> j2" by simp
  from eq2 s2 have w2: "spec_char_to_trie_scan (ranges alpha_map) c2 1 = Some j2" by simp
  from scan_lower[OF valid_ranges[OF valid] w2] fits have up2: "1 \<le> j2" "j2 \<le> 255" by simp_all
  from nz2 w2 have code2: "alpha_map_char_to_trie alpha_map c2 = word_of_int j2"
    by (simp add: char_to_trie_code)
  have u2: "uint (alpha_map_char_to_trie alpha_map c2) = j2"
    unfolding code2 by (rule code_word_bounds[OF up2])
  show ?thesis
  proof (cases "c1 = 0")
    case True
    then have "uint (alpha_map_char_to_trie alpha_map c1) = 0"
      by (simp add: alpha_map_char_to_trie_def)
    with u2 up2 show ?thesis by (simp add: word_less_def)
  next
    case False
    from c1 have "\<exists>r \<in> set (xs @ [R1]). in_range r c1" by auto
    from scan_found[OF this] obtain j1
      where s1: "spec_char_to_trie_scan (xs @ [R1]) c1 1 = Some j1" by blast
    from scan_lower[OF vhead s1] have b1: "1 \<le> j1" "j1 < 1 + total_size xs + range_size R1"
      by (simp_all add: total_size_append total_size_Cons total_size_def)
    from scan_append_found[OF s1, of "ys @ [R2] @ zs"] order
    have w1: "spec_char_to_trie_scan (ranges alpha_map) c1 1 = Some j1" by simp
    from False w1 have code1: "alpha_map_char_to_trie alpha_map c1 = word_of_int j1"
      by (simp add: char_to_trie_code)
    from b1 low2 up2 have "1 \<le> j1" "j1 \<le> 255" by simp_all
    then have u1: "uint (alpha_map_char_to_trie alpha_map c1) = j1"
      unfolding code1 by (rule code_word_bounds)
    from b1 low2 u1 u2 show ?thesis by (simp add: word_less_def)
  qed
qed

theorem monotonic_compaction_witness:
  "alpha_map_valid \<lparr>ranges = [\<lparr>range_begin = 0x30, range_end = 0x39\<rparr>,
                              \<lparr>range_begin = 0x41, range_end = 0x5A\<rparr>,
                              \<lparr>range_begin = 0x61, range_end = 0x7A\<rparr>]\<rparr> \<and>
   total_size [\<lparr>range_begin = 0x30, range_end = 0x39\<rparr>,
               \<lparr>range_begin = 0x41, range_end = 0x5A\<rparr>,
               \<lparr>range_begin = 0x61, range_end = 0x7A\<rparr>] \<le> 255 \<and>
   range_end \<lparr>range_begin = 0x41, range_end = 0x5A\<rparr>
     < range_begin \<lparr>range_begin = 0x61, range_end = 0x7A\<rparr> \<and>
   in_range \<lparr>range_begin = 0x41, range_end = 0x5A\<rparr> 0x5A \<and>
   in_range \<lparr>range_begin = 0x61, range_end = 0x7A\<rparr> 0x61 \<and>
   \<not> in_range \<lparr>range_begin = 0x30, range_end = 0x39\<rparr> 0x61 \<and>
   alpha_map_char_to_trie \<lparr>ranges = [\<lparr>range_begin = 0x30, range_end = 0x39\<rparr>,
                                     \<lparr>range_begin = 0x41, range_end = 0x5A\<rparr>,
                                     \<lparr>range_begin = 0x61, range_end = 0x7A\<rparr>]\<rparr> 0x5A
     < alpha_map_char_to_trie \<lparr>ranges = [\<lparr>range_begin = 0x30, range_end = 0x39\<rparr>,
                                       \<lparr>range_begin = 0x41, range_end = 0x5A\<rparr>,
                                       \<lparr>range_begin = 0x61, range_end = 0x7A\<rparr>]\<rparr> 0x61"
proof -
  let ?R0 = "\<lparr>range_begin = 0x30, range_end = 0x39\<rparr> :: AlphaRange"
  let ?R1 = "\<lparr>range_begin = 0x41, range_end = 0x5A\<rparr> :: AlphaRange"
  let ?R2 = "\<lparr>range_begin = 0x61, range_end = 0x7A\<rparr> :: AlphaRange"
  let ?m = "\<lparr>ranges = [?R0, ?R1, ?R2]\<rparr>"
  have h1: "alpha_map_valid ?m" by (simp add: alpha_map_valid_def)
  have h2: "total_size (ranges ?m) \<le> 255" by (simp add: total_size_def range_size_def)
  have h3: "ranges ?m = [?R0] @ [?R1] @ [] @ [?R2] @ []" by simp
  have h4: "range_end ?R1 < range_begin ?R2" by simp
  have h5: "in_range ?R1 0x5A" by (simp add: in_range_def)
  have h6: "in_range ?R2 0x61" by (simp add: in_range_def)
  have h7: "\<not> in_range ?R0 0x61" by (simp add: in_range_def)
  then have h8: "\<forall>r \<in> set [?R0]. \<not> in_range r 0x61" by simp
  from monotonic_compaction[OF h1 h2 h3 h4 h5 h6 h8] h1 h2 h4 h5 h6 h7 show ?thesis by simp
qed

text \<open>
  Without the bound the order fails: with \<open>R1 = [1, 200]\<close> and \<open>R2 = [300, 400]\<close> the
  character 200 gets the code 200 and the character 400 gets 301 reduced to 45. It also
  fails when an earlier range contains a character of \<open>R2\<close>: with \<open>[50, 60]\<close> inserted
  first, then \<open>R1 = [1, 5]\<close> and \<open>R2 = [55, 58]\<close>, the character 5 gets the code 16 and
  the character 55 gets the code 6 from the first range.
\<close>

theorem monotonic_compaction_counterexample:
  "range_end \<lparr>range_begin = 1, range_end = 200\<rparr>
     < range_begin \<lparr>range_begin = 300, range_end = 400\<rparr> \<and>
   in_range \<lparr>range_begin = 1, range_end = 200\<rparr> 200 \<and>
   in_range \<lparr>range_begin = 300, range_end = 400\<rparr> 400 \<and>
   alpha_map_char_to_trie \<lparr>ranges = [\<lparr>range_begin = 1, range_end = 200\<rparr>,
                                     \<lparr>range_begin = 300, range_end = 400\<rparr>]\<rparr> 200 = 200 \<and>
   alpha_map_char_to_trie \<lparr>ranges = [\<lparr>range_begin = 1, range_end = 200\<rparr>,
                                     \<lparr>range_begin = 300, range_end = 400\<rparr>]\<rparr> 400 = 45 \<and>
   \<not> alpha_map_char_to_trie \<lparr>ranges = [\<lparr>range_begin = 1, range_end = 200\<rparr>,
                                       \<lparr>range_begin = 300, range_end = 400\<rparr>]\<rparr> 200
       < alpha_map_char_to_trie \<lparr>ranges = [\<lparr>range_begin = 1, range_end = 200\<rparr>,
                                         \<lparr>range_begin = 300, range_end = 400\<rparr>]\<rparr> 400 \<and>
   range_end \<lparr>range_begin = 1, range_end = 5\<rparr>
     < range_begin \<lparr>range_begin = 55, range_end = 58\<rparr> \<and>
   in_range \<lparr>range_begin = 1, range_end = 5\<rparr> 5 \<and>
   in_range \<lparr>range_begin = 55, range_end = 58\<rparr> 55 \<and>
   \<not> alpha_map_char_to_trie \<lparr>ranges = [\<lparr>range_begin = 50, range_end = 60\<rparr>,
                                       \<lparr>range_begin = 1, range_end = 5\<rparr>,
                                       \<lparr>range_begin = 55, range_end = 58\<rparr>]\<rparr> 5
       < alpha_map_char_to_trie \<lparr>ranges = [\<lparr>range_begin = 50, range_end = 60\<rparr>,
                                         \<lparr>range_begin = 1, range_end = 5\<rparr>,
                                         \<lparr>range_begin = 55, range_end = 58\<rparr>]\<rparr> 55"
  by (simp add: in_range_def alpha_map_char_to_trie_def)

section \<open>Rejected ranges\<close>

text \<open>
  C7. For every map and every pair with \<open>begin > end\<close>, \<^verbatim>\<open>alpha_map_add_range\<close> returns
  the error status \<open>-1\<close> and leaves the map, and so its sequence of ranges, as it was;
  nothing is allocated.
\<close>

theorem add_range_rejects:
  "end < begin \<Longrightarrow> alpha_map_add_range alpha_map begin end h = (- 1, alpha_map, h)"
  by (simp add: alpha_map_add_range_def)

theorem add_range_rejects_witness:
  "(2 :: AlphaChar) < 5 \<and>
   alpha_map_add_range \<lparr>ranges = [\<lparr>range_begin = 0x41, range_end = 0x5A\<rparr>]\<rparr> 5 2 1 =
     (- 1, \<lparr>ranges = [\<lparr>range_begin = 0x41, range_end = 0x5A\<rparr>]\<rparr>, 1)"
proof -
  have h: "(2 :: AlphaChar) < 5" by simp
  from add_range_rejects[OF h] h show ?thesis by simp
qed

section \<open>Unmapped characters and codes\<close>

text \<open>
  C9. For every map and every external character other than 0 that no range of the map
  contains, \<^verbatim>\<open>alpha_map_char_to_trie\<close> returns \<^verbatim>\<open>TRIE_CHAR_MAX\<close>. For every map (its
  ranges with \<open>begin \<le> end\<close>) and every compact code other than 0 that is greater than
  the number of characters the ranges cover, that is, beyond the codes 1 to
  \<open>total_size\<close> the map assigns, \<^verbatim>\<open>alpha_map_trie_to_char\<close> returns the error external
  character.
\<close>

theorem unmapped_sentinels:
  "(c \<noteq> 0 \<and> (\<forall>r \<in> set (ranges alpha_map). \<not> in_range r c) \<longrightarrow>
      alpha_map_char_to_trie alpha_map c = TRIE_CHAR_MAX) \<and>
   (alpha_map_valid alpha_map \<and> tc \<noteq> 0 \<and> total_size (ranges alpha_map) < uint tc \<longrightarrow>
      alpha_map_trie_to_char ALPHA_CHAR_ERROR alpha_map tc = ALPHA_CHAR_ERROR)"
proof (intro conjI impI)
  assume a: "c \<noteq> 0 \<and> (\<forall>r \<in> set (ranges alpha_map). \<not> in_range r c)"
  then have "spec_char_to_trie_scan (ranges alpha_map) c 1 = None"
    by (simp add: scan_not_found)
  with a show "alpha_map_char_to_trie alpha_map c = TRIE_CHAR_MAX"
    by (simp add: char_to_trie_code)
next
  assume a: "alpha_map_valid alpha_map \<and> tc \<noteq> 0 \<and> total_size (ranges alpha_map) < uint tc"
  then have "trie_to_char_loop ALPHA_CHAR_ERROR (ranges alpha_map) tc (word_of_int 1) = ALPHA_CHAR_ERROR"
    by (intro trie_to_char_loop_beyond valid_ranges) simp_all
  with a show "alpha_map_trie_to_char ALPHA_CHAR_ERROR alpha_map tc = ALPHA_CHAR_ERROR"
    by (simp add: alpha_map_trie_to_char_def)
qed

theorem unmapped_sentinels_witness:
  "(0x30 :: AlphaChar) \<noteq> 0 \<and>
   \<not> in_range \<lparr>range_begin = 0x41, range_end = 0x5A\<rparr> 0x30 \<and>
   \<not> in_range \<lparr>range_begin = 0x61, range_end = 0x7A\<rparr> 0x30 \<and>
   alpha_map_char_to_trie \<lparr>ranges = [\<lparr>range_begin = 0x41, range_end = 0x5A\<rparr>,
                                     \<lparr>range_begin = 0x61, range_end = 0x7A\<rparr>]\<rparr> 0x30
     = TRIE_CHAR_MAX \<and>
   alpha_map_valid \<lparr>ranges = [\<lparr>range_begin = 0x41, range_end = 0x5A\<rparr>,
                              \<lparr>range_begin = 0x61, range_end = 0x7A\<rparr>]\<rparr> \<and>
   (53 :: TrieChar) \<noteq> 0 \<and>
   total_size [\<lparr>range_begin = 0x41, range_end = 0x5A\<rparr>,
               \<lparr>range_begin = 0x61, range_end = 0x7A\<rparr>] < uint (53 :: TrieChar) \<and>
   alpha_map_trie_to_char 0xFFFFFFFF
     \<lparr>ranges = [\<lparr>range_begin = 0x41, range_end = 0x5A\<rparr>,
                \<lparr>range_begin = 0x61, range_end = 0x7A\<rparr>]\<rparr> 53 = 0xFFFFFFFF"
proof -
  let ?m = "\<lparr>ranges = [\<lparr>range_begin = 0x41, range_end = 0x5A\<rparr>,
                    \<lparr>range_begin = 0x61, range_end = 0x7A\<rparr>]\<rparr>"
  have h1: "(0x30 :: AlphaChar) \<noteq> 0" by simp
  have h2: "\<not> in_range \<lparr>range_begin = 0x41, range_end = 0x5A\<rparr> 0x30"
    and h3: "\<not> in_range \<lparr>range_begin = 0x61, range_end = 0x7A\<rparr> 0x30"
    by (simp_all add: in_range_def)
  then have h4: "\<forall>r \<in> set (ranges ?m). \<not> in_range r 0x30" by simp
  have h5: "alpha_map_valid ?m" by (simp add: alpha_map_valid_def)
  have h6: "(53 :: TrieChar) \<noteq> 0" by simp
  have h7: "total_size (ranges ?m) < uint (53 :: TrieChar)"
    by (simp add: total_size_def range_size_def)
  from unmapped_sentinels[of "0x30" ?m 53 "0xFFFFFFFF"] h1 h2 h3 h4 h5 h6 h7
  show ?thesis by simp
qed

section \<open>Decoding and the binary round trip\<close>

text \<open>
  C8. When the first 32-bit integer of the stream cannot be read or is not the signature
  \<open>0xD9FCD9FC\<close>, \<^verbatim>\<open>alpha_map_read_bin\<close> returns no map (\<^verbatim>\<open>NULL\<close>), and the stream it
  leaves is the stream it was given: the read position is the position before the call.
  Nothing is allocated.
\<close>

theorem read_bin_signature_mismatch:
  "fst (file_read_int32 file) \<noteq> Some ALPHAMAP_SIGNATURE \<Longrightarrow>
   alpha_map_read_bin file h = Inr (None, file, h) \<and>
   (\<forall>file' r. alpha_map_read_bin file h = Inr (r, file', h) \<longrightarrow> ftell file' = ftell file)"
  by (auto simp: alpha_map_read_bin_def file_read_int32_def fseek_def ftell_def split: if_splits)

theorem read_bin_signature_mismatch_witness:
  "fst (file_read_int32 \<lparr>content = [0x12345678, 1, 2, 3], pos = 0, capacity = 4\<rparr>)
     \<noteq> Some ALPHAMAP_SIGNATURE \<and>
   alpha_map_read_bin \<lparr>content = [0x12345678, 1, 2, 3], pos = 0, capacity = 4\<rparr> 1 =
     Inr (None, \<lparr>content = [0x12345678, 1, 2, 3], pos = 0, capacity = 4\<rparr>, 1)"
proof -
  have h: "fst (file_read_int32 \<lparr>content = [0x12345678, 1, 2, 3], pos = 0, capacity = 4\<rparr>)
     \<noteq> Some ALPHAMAP_SIGNATURE"
    by (simp add: file_read_int32_def ALPHAMAP_SIGNATURE_def)
  from read_bin_signature_mismatch[OF h, of 1] h show ?thesis by blast
qed

text \<open>
  C4, as amended. When the stream holds, from its position on, the signature, a count
  \<open>N\<close> and \<open>N\<close> range pairs, and allocation succeeds, \<^verbatim>\<open>alpha_map_read_bin\<close> returns a
  map whose ranges are, in file order, exactly those of the \<open>N\<close> pairs that have
  \<open>begin \<le> end\<close>, and leaves the position after the last pair. Every pair is passed to
  \<^verbatim>\<open>alpha_map_add_range\<close>, which rejects a pair with \<open>begin > end\<close>.
\<close>

theorem read_bin_appends_accepted:
  assumes "content file = pre @ [ALPHAMAP_SIGNATURE, N] @ range_words rs @ post"
    and "pos file = length pre"
    and "length rs = nat (sint N)"
    and "length (filter (\<lambda>r. range_begin r \<le> range_end r) rs) < h"
  shows "alpha_map_read_bin file h =
           Inr (Some \<lparr>ranges = filter (\<lambda>r. range_begin r \<le> range_end r) rs\<rparr>,
                file\<lparr>pos := pos file + 2 + 2 * length rs\<rparr>,
                h - 1 - length (filter (\<lambda>r. range_begin r \<le> range_end r) rs))"
proof -
  have "holds_at (pre @ (ALPHAMAP_SIGNATURE # N # range_words rs) @ post) (length pre)
          (ALPHAMAP_SIGNATURE # N # range_words rs)"
    by (rule holds_at_middle)
  with assms(1,2) have "holds_at (content file) (pos file) (ALPHAMAP_SIGNATURE # N # range_words rs)"
    by simp
  from read_bin_holds[OF this assms(3,4)] show ?thesis .
qed

theorem read_bin_appends_accepted_witness:
  "content \<lparr>content = [7, 0xD9FCD9FC, 3, 0x41, 0x5A, 5, 2, 0x61, 0x7A, 9], pos = 1, capacity = 10\<rparr> =
     [7] @ [ALPHAMAP_SIGNATURE, 3] @
     range_words [\<lparr>range_begin = 0x41, range_end = 0x5A\<rparr>, \<lparr>range_begin = 5, range_end = 2\<rparr>,
                  \<lparr>range_begin = 0x61, range_end = 0x7A\<rparr>] @ [9] \<and>
   alpha_map_read_bin
     \<lparr>content = [7, 0xD9FCD9FC, 3, 0x41, 0x5A, 5, 2, 0x61, 0x7A, 9], pos = 1, capacity = 10\<rparr> 3 =
     Inr (Some \<lparr>ranges = [\<lparr>range_begin = 0x41, range_end = 0x5A\<rparr>,
                          \<lparr>range_begin = 0x61, range_end = 0x7A\<rparr>]\<rparr>,
          \<lparr>content = [7, 0xD9FCD9FC, 3, 0x41, 0x5A, 5, 2, 0x61, 0x7A, 9], pos = 9, capacity = 10\<rparr>,
          0)"
proof -
  let ?f = "\<lparr>content = [7, 0xD9FCD9FC, 3, 0x41, 0x5A, 5, 2, 0x61, 0x7A, 9], pos = 1, capacity = 10\<rparr>"
  let ?rs = "[\<lparr>range_begin = 0x41, range_end = 0x5A\<rparr>, \<lparr>range_begin = 5, range_end = 2\<rparr>,
              \<lparr>range_begin = 0x61, range_end = 0x7A\<rparr>] :: AlphaRange list"
  have h1: "content ?f = [7] @ [ALPHAMAP_SIGNATURE, 3] @ range_words ?rs @ [9]"
    by (simp add: ALPHAMAP_SIGNATURE_def)
  have h2: "pos ?f = length [7 :: int32]" by simp
  have h3: "length ?rs = nat (sint (3 :: int32))" by simp
  have h4: "length (filter (\<lambda>r. range_begin r \<le> range_end r) ?rs) < 3" by simp
  from read_bin_appends_accepted[OF h1 h2 h3 h4] h1 show ?thesis by simp
qed

text \<open>
  A decoded pair with \<open>begin > end\<close> is not a range of the resulting map: a block with
  the count 1 and the pair \<open>(5, 2)\<close> decodes to the empty map.
\<close>

theorem read_bin_drops_counterexample:
  "alpha_map_read_bin \<lparr>content = [0xD9FCD9FC, 1, 5, 2], pos = 0, capacity = 4\<rparr> 2 =
     Inr (Some \<lparr>ranges = []\<rparr>, \<lparr>content = [0xD9FCD9FC, 1, 5, 2], pos = 4, capacity = 4\<rparr>, 1)"
  by (simp add: alpha_map_read_bin_def file_read_int32_def ftell_def fseek_def
      ALPHAMAP_SIGNATURE_def alpha_map_new_def malloc_def read_ranges.simps
      alpha_map_add_range_def)

text \<open>
  C3. Let a map, its ranges with \<open>begin \<le> end\<close> and fewer than \<open>2^31\<close> of them (the
  count is a signed 32-bit integer), be written with \<^verbatim>\<open>alpha_map_write_bin\<close>, and let
  the write succeed. Reading the block back from the position where it was written,
  with memory for the map and its ranges, \<^verbatim>\<open>alpha_map_read_bin\<close> returns the same
  sequence of ranges, the same begin and end pairs in the same order, and leaves the
  stream at the end of the block.
\<close>

theorem write_read_round_trip:
  assumes "alpha_map_valid alpha_map"
    and "length (ranges alpha_map) < 2 ^ 31"
    and "alpha_map_write_bin alpha_map file = (0, file')"
    and "length (ranges alpha_map) < h"
  shows "alpha_map_read_bin (fseek file' (ftell file)) h =
           Inr (Some alpha_map, file', h - 1 - length (ranges alpha_map))"
proof -
  let ?N = "word_of_nat (length (ranges alpha_map)) :: int32"
  let ?rewound = "fseek file' (ftell file)"
  from write_bin_ok[OF assms(3)]
  have p: "pos file' = pos file + 2 + 2 * length (ranges alpha_map)"
    and hd: "holds_at (content ?rewound) (pos ?rewound)
               (ALPHAMAP_SIGNATURE # ?N # range_words (ranges alpha_map))"
    by (simp_all add: fseek_def ftell_def)
  have len: "length (ranges alpha_map) = nat (sint ?N)"
    by (simp add: sint_count[OF assms(2)])
  from assms(1,4) have hp: "length (accepted (ranges alpha_map)) < h"
    by (simp add: accepted_valid)
  have restored: "?rewound\<lparr>pos := pos ?rewound + 2 + 2 * length (ranges alpha_map)\<rparr> = file'"
    using p by (simp add: fseek_def ftell_def)
  have m: "\<lparr>ranges = ranges alpha_map\<rparr> = alpha_map" by simp
  from read_bin_holds[OF hd len hp] show ?thesis
    unfolding accepted_valid[OF assms(1)] restored m .
qed

theorem write_read_round_trip_witness:
  "alpha_map_valid \<lparr>ranges = [\<lparr>range_begin = 0x41, range_end = 0x5A\<rparr>,
                              \<lparr>range_begin = 0x61, range_end = 0x7A\<rparr>]\<rparr> \<and>
   alpha_map_write_bin \<lparr>ranges = [\<lparr>range_begin = 0x41, range_end = 0x5A\<rparr>,
                                  \<lparr>range_begin = 0x61, range_end = 0x7A\<rparr>]\<rparr>
       \<lparr>content = [7], pos = 1, capacity = 16\<rparr> =
     (0, \<lparr>content = [7, 0xD9FCD9FC, 2, 0x41, 0x5A, 0x61, 0x7A], pos = 7, capacity = 16\<rparr>) \<and>
   alpha_map_read_bin
       (fseek \<lparr>content = [7, 0xD9FCD9FC, 2, 0x41, 0x5A, 0x61, 0x7A], pos = 7, capacity = 16\<rparr>
              (ftell \<lparr>content = [7], pos = 1, capacity = 16\<rparr>)) 3 =
     Inr (Some \<lparr>ranges = [\<lparr>range_begin = 0x41, range_end = 0x5A\<rparr>,
                          \<lparr>range_begin = 0x61, range_end = 0x7A\<rparr>]\<rparr>,
          \<lparr>content = [7, 0xD9FCD9FC, 2, 0x41, 0x5A, 0x61, 0x7A], pos = 7, capacity = 16\<rparr>, 0)"
proof -
  let ?m = "\<lparr>ranges = [\<lparr>range_begin = 0x41, range_end = 0x5A\<rparr>,
                    \<lparr>range_begin = 0x61, range_end = 0x7A\<rparr>]\<rparr>"
  let ?f = "\<lparr>content = [7], pos = 1, capacity = 16\<rparr>"
  let ?f' = "\<lparr>content = [7, 0xD9FCD9FC, 2, 0x41, 0x5A, 0x61, 0x7A], pos = 7, capacity = 16\<rparr>"
  have h1: "alpha_map_valid ?m" by (simp add: alpha_map_valid_def)
  have h2: "length (ranges ?m) < 2 ^ 31" by simp
  have h3: "alpha_map_write_bin ?m ?f = (0, ?f')"
    by (simp add: alpha_map_write_bin_def file_write_int32_def put_at_def
        alpha_map_get_total_ranges_def ALPHAMAP_SIGNATURE_def)
  have h4: "length (ranges ?m) < 3" by simp
  from write_read_round_trip[OF h1 h2 h3 h4] h1 h3 show ?thesis by simp
qed

end
